theory Spec2Isabelle
  imports Complex_Main
begin

section \<open>Numbers, errors and the library interface\<close>

text \<open>
  The script \<^verbatim>\<open>reg.py\<close> computes with Python floats. Two views of them are used below.
  Where a claim is about comparisons or about non-finite values, a float is a value of
  \<open>pyfloat\<close>: a finite real, one of the two infinities, or NaN. Where a claim is about exact
  polynomial algebra, coefficients are reals. The system record and the functions that only
  move coefficients around are polymorphic in the coefficient type, so both views share them.
\<close>

datatype pyfloat = Fin real | PosInf | NegInf | NaN

text \<open>Python's \<^verbatim>\<open>a < b\<close> on floats: every comparison with NaN is false.\<close>

fun fl_lt :: "pyfloat \<Rightarrow> pyfloat \<Rightarrow> bool" where
  "fl_lt (Fin a) (Fin b) = (a < b)"
| "fl_lt (Fin a) PosInf = True"
| "fl_lt NegInf (Fin b) = True"
| "fl_lt NegInf PosInf = True"
| "fl_lt _ _ = False"

text \<open>Python's \<^verbatim>\<open>a > b\<close> is the reflected comparison.\<close>

definition fl_gt :: "pyfloat \<Rightarrow> pyfloat \<Rightarrow> bool" where
  "fl_gt a b = fl_lt b a"


instantiation pyfloat :: zero_neq_one
begin

definition zero_pyfloat :: pyfloat where
  "zero_pyfloat = Fin 0"

definition one_pyfloat :: pyfloat where
  "one_pyfloat = Fin 1"

instance
  by standard (simp add: zero_pyfloat_def one_pyfloat_def)

end

text \<open>
  The error kinds of the specification (section 7), and the Python exceptions that the
  script itself can meet: an exception raised inside a library call, the \<^verbatim>\<open>ValueError\<close> of
  an array operation on incompatible shapes, \<^verbatim>\<open>IndexError\<close> and \<^verbatim>\<open>ZeroDivisionError\<close>.
\<close>

datatype error =
    InvalidSystem
  | InvalidGains
  | NumericInstability
  | DivisionByZero
  | UnsupportedSymbolicForm
  | IndeterminateRecommendation
  | LibraryException
  | ValueError
  | IndexError
  | ZeroDivisionError

text \<open>
  The functions of the \<^verbatim>\<open>control\<close> package that \<^verbatim>\<open>conseil_regulateur\<close> calls are numerical
  routines outside the script. They are parameters of the model: \<^verbatim>\<open>control.poles\<close>, the older
  entry point \<^verbatim>\<open>control.pole\<close>, and \<^verbatim>\<open>control.step_info\<close>, which returns a dictionary from
  metric names to floats. Each may raise.
\<close>

record 'sys control_api =
  control_poles :: "'sys \<Rightarrow> error + complex list"
  control_pole :: "'sys \<Rightarrow> error + complex list"
  control_step_info :: "'sys \<Rightarrow> error + (string \<rightharpoonup> pyfloat)"

section \<open>The regulator advice\<close>

text \<open>
  The four rationale strings of \<^verbatim>\<open>conseil_regulateur\<close>. Characters outside ASCII are written
  as their UTF-8 bytes.
\<close>

definition msg_P :: string where
  "msg_P = ''Le syst'' @ [CHR 0xC3, CHR 0xA8] @ ''me est d'' @ [CHR 0xC3, CHR 0xA9] @ ''j''
     @ [CHR 0xC3, CHR 0xA0] @ '' stable et rapide '' @ [CHR 0xE2, CHR 0x86, CHR 0x92]
     @ '' correcteur P suffisant.''"

definition msg_PI :: string where
  "msg_PI = ''Erreur statique possible, dynamique stable '' @ [CHR 0xE2, CHR 0x86, CHR 0x92]
     @ '' PI adapt'' @ [CHR 0xC3, CHR 0xA9] @ ''.''"

definition msg_PD :: string where
  "msg_PD = ''Syst'' @ [CHR 0xC3, CHR 0xA8] @ ''me oscillant '' @ [CHR 0xE2, CHR 0x86, CHR 0x92]
     @ '' d'' @ [CHR 0xC3, CHR 0xA9] @ ''riv'' @ [CHR 0xC3, CHR 0xA9] @ ''e n''
     @ [CHR 0xC3, CHR 0xA9] @ ''cessaire.''"

definition msg_PID :: string where
  "msg_PID = ''Cas g'' @ [CHR 0xC3, CHR 0xA9] @ ''n'' @ [CHR 0xC3, CHR 0xA9] @ ''ral ''
     @ [CHR 0xE2, CHR 0x86, CHR 0x92] @ '' PID pour pr'' @ [CHR 0xC3, CHR 0xA9]
     @ ''cision + stabilit'' @ [CHR 0xC3, CHR 0xA9] @ ''.''"

text \<open>Python's \<^verbatim>\<open>d.get(key, default)\<close>.\<close>

definition dict_get :: "('k \<rightharpoonup> 'v) \<Rightarrow> 'k \<Rightarrow> 'v \<Rightarrow> 'v" where
  "dict_get d k dflt = (case d k of None \<Rightarrow> dflt | Some v \<Rightarrow> v)"

text \<open>
  The pole computation with its fallback, as it stands at the head of \<^verbatim>\<open>conseil_regulateur\<close>
  and again at top level: \<^verbatim>\<open>try: control.poles(sys)\<close>, \<^verbatim>\<open>except: control.pole(sys)\<close>. An
  exception of the second call is not caught.
\<close>

definition system_poles :: "'sys control_api \<Rightarrow> 'sys \<Rightarrow> error + complex list" where
  "system_poles api sys =
     (case control_poles api sys of
        Inr ps \<Rightarrow> Inr ps
      | Inl _ \<Rightarrow> control_pole api sys)"

text \<open>
  The threshold ladder of \<^verbatim>\<open>conseil_regulateur\<close>, from the two \<^verbatim>\<open>info.get\<close> calls to the
  final \<^verbatim>\<open>return\<close>. The thresholds are the Python integers 1, 2, 10 and 20.
\<close>

definition recommend :: "(string \<rightharpoonup> pyfloat) \<Rightarrow> string \<times> string" where
  "recommend info =
     (let overshoot = dict_get info ''Overshoot'' (Fin 0);
          settling = dict_get info ''SettlingTime'' (Fin 0)
      in if fl_lt overshoot (Fin 1) \<and> fl_lt settling (Fin 2) then (''P'', msg_P)
         else if fl_lt overshoot (Fin 10) then (''PI'', msg_PI)
         else if fl_gt overshoot (Fin 20) then (''PD'', msg_PD)
         else (''PID'', msg_PID))"

text \<open>
  \<^verbatim>\<open>conseil_regulateur(sys)\<close>: the poles are computed first (their value is not used, but the
  call may raise), then the step metrics, then the ladder.
\<close>

definition conseil_regulateur :: "'sys control_api \<Rightarrow> 'sys \<Rightarrow> error + string \<times> string" where
  "conseil_regulateur api sys =
     (case system_poles api sys of
        Inl e \<Rightarrow> Inl e
      | Inr poles \<Rightarrow>
          (case control_step_info api sys of
             Inl e \<Rightarrow> Inl e
           | Inr info \<Rightarrow> Inr (recommend info)))"

text \<open>
  A library instance for running the advice on a given metrics dictionary: the system has no
  poles to report and its step metrics are the dictionary.
\<close>

definition metrics_api :: "(string \<rightharpoonup> pyfloat) control_api" where
  "metrics_api =
     \<lparr>control_poles = (\<lambda>info. Inr []),
      control_pole = (\<lambda>info. Inr []),
      control_step_info = (\<lambda>info. Inr info)\<rparr>"

text \<open>
  A library instance whose pole routines return a given sequence, for running the pole
  computation on it.
\<close>

definition poles_api :: "complex list \<Rightarrow> unit control_api" where
  "poles_api ps =
     \<lparr>control_poles = (\<lambda>sys. Inr ps),
      control_pole = (\<lambda>sys. Inr ps),
      control_step_info = (\<lambda>sys. Inr Map.empty)\<rparr>"

text \<open>
  A sequence of poles is sorted when the real parts ascend and, among equal real parts, the
  imaginary parts ascend (specification, section 4.3).
\<close>

definition pole_sorted :: "complex list \<Rightarrow> bool" where
  "pole_sorted ps = sorted_wrt (\<lambda>a b. Re a < Re b \<or> (Re a = Re b \<and> Im a \<le> Im b)) ps"

section \<open>Transfer functions\<close>

text \<open>
  A transfer function object of the \<^verbatim>\<open>control\<close> package keeps its coefficients in the
  attributes \<^verbatim>\<open>num\<close> and \<^verbatim>\<open>den\<close>, indexed by output, then by input: \<^verbatim>\<open>sys.num[i][j]\<close> is the
  coefficient sequence (highest degree first) from input \<open>j\<close> to output \<open>i\<close>. A system with
  one input and one output has its numerator at \<^verbatim>\<open>sys.num[0][0]\<close>.
\<close>

record 'a tf =
  num :: "'a list list list"
  den :: "'a list list list"

definition all_zero :: "'a::zero list \<Rightarrow> bool" where
  "all_zero cs = list_all (\<lambda>c. c = 0) cs"

text \<open>
  The constructor removes the leading zeros of a coefficient sequence; a sequence that is
  empty or identically zero becomes the single coefficient 0.
\<close>

definition truncatecoeff :: "'a::zero list \<Rightarrow> 'a list" where
  "truncatecoeff cs = (case dropWhile (\<lambda>c. c = 0) cs of [] \<Rightarrow> [0] | ds \<Rightarrow> ds)"

text \<open>
  The constructor \<^verbatim>\<open>control.TransferFunction(num, den)\<close> is library code. It raises
  \<^verbatim>\<open>ValueError\<close> when the denominator is empty or identically zero; when the numerator is
  empty or identically zero it replaces the denominator by 1; then it removes the leading
  zeros of both sequences. A NaN coefficient is not zero.
\<close>

definition TransferFunction :: "'a::zero_neq_one list \<Rightarrow> 'a list \<Rightarrow> error + 'a tf" where
  "TransferFunction n d =
     (if all_zero d then Inl ValueError
      else Inr \<lparr>num = [[truncatecoeff n]],
                den = [[truncatecoeff (if all_zero n then [1] else d)]]\<rparr>)"

text \<open>\<^verbatim>\<open>create_pid(Kp, Ki, Kd)\<close>.\<close>

definition create_pid :: "'a::zero_neq_one \<Rightarrow> 'a \<Rightarrow> 'a \<Rightarrow> error + 'a tf" where
  "create_pid Kp Ki Kd = TransferFunction [Kd, Kp, Ki] [1, 0]"


text \<open>
  The value of a coefficient sequence (highest degree first) at a point, by Horner's rule.
\<close>

definition peval :: "'a::comm_ring_1 list \<Rightarrow> 'a \<Rightarrow> 'a" where
  "peval cs x = foldl (\<lambda>acc c. acc * x + c) 0 cs"

section \<open>Binary64 arithmetic and the closed loop\<close>

text \<open>
  Rounding to the nearest integer, a tie going to the even one.
\<close>

definition round_even :: "real \<Rightarrow> int" where
  "round_even r =
     (let f = \<lfloor>r\<rfloor>; t = r - of_int f
      in if t < 1 / 2 then f else if 1 / 2 < t then f + 1 else if even f then f else f + 1)"

text \<open>
  Rounding a real to binary64. The representable numbers around \<open>x\<close> are the multiples of
  2 to the power \<open>e - 52\<close>, where \<open>e\<close> is the binary exponent of \<open>x\<close>, but at least \<open>-1022\<close>.
  The rounded value is the nearest multiple, a tie going to the even one; a result of
  magnitude 2 to the power 1024 or more overflows to an infinity. The sign of a zero is
  not represented.
\<close>

definition b64 :: "real \<Rightarrow> pyfloat" where
  "b64 x =
     (if x = 0 then Fin 0
      else let e = max \<lfloor>log 2 \<bar>x\<bar>\<rfloor> (- 1022);
               u = 2 powr (of_int e - 52);
               y = sgn x * of_int (round_even (\<bar>x\<bar> / u)) * u
           in if 2 ^ 1024 \<le> \<bar>y\<bar> then (if 0 < x then PosInf else NegInf) else Fin y)"















section \<open>Symbolic expressions\<close>

text \<open>
  Modelled from the spec: sympy expressions are library objects. Following section 3, a
  symbolic expression is an exact rational function in the indeterminate \<open>s\<close>. Sums and
  products of coefficient sequences (highest degree first) are those of polynomials: the
  shorter summand is padded with leading zeros, and a product is the sum of the shifted
  multiples of its second factor.
\<close>

definition polyadd :: "'a::comm_ring_1 list \<Rightarrow> 'a list \<Rightarrow> 'a list" where
  "polyadd xs ys =
     (let n = max (length xs) (length ys)
      in map2 (+) (replicate (n - length xs) 0 @ xs) (replicate (n - length ys) 0 @ ys))"

fun polymul :: "'a::comm_ring_1 list \<Rightarrow> 'a list \<Rightarrow> 'a list" where
  "polymul [] ys = []"
| "polymul (x # xs) ys =
     polyadd (map ((*) x) ys @ replicate (length xs) 0) (polymul xs ys)"

text \<open>
  A simplified expression is represented by its value at every real \<open>s\<close>, \<open>None\<close> where it
  has none.
\<close>

type_synonym expr = "real \<Rightarrow> real option"

text \<open>
  Dividing a polynomial by \<open>x - s\<close>: the running values of Horner's rule are the
  coefficients of the quotient, followed by the remainder.
\<close>

fun horner_steps :: "real \<Rightarrow> real \<Rightarrow> real list \<Rightarrow> real list" where
  "horner_steps s acc [] = []"
| "horner_steps s acc (c # cs) = (acc * s + c) # horner_steps s (acc * s + c) cs"

definition deflate :: "real list \<Rightarrow> real \<Rightarrow> real list" where
  "deflate cs s = butlast (horner_steps s 0 cs)"

text \<open>
  The value at \<open>s\<close> of the quotient of two polynomials after cancellation of common factors.
  A quotient by the zero polynomial has no value. Where the denominator does not vanish the
  value is the quotient of the values. Where it vanishes and the numerator does not, there is
  a pole. Where both vanish, the common factor \<open>x - s\<close> is divided out of both.
\<close>

function rat_value :: "real list \<Rightarrow> real list \<Rightarrow> real \<Rightarrow> real option" where
  "rat_value n d s =
     (if all_zero d then None
      else if peval d s \<noteq> 0 then Some (peval n s / peval d s)
      else if peval n s \<noteq> 0 then None
      else rat_value (deflate n s) (deflate d s) s)"
  by pat_completeness auto

termination rat_value
proof (relation "measure (\<lambda>(n, d, s). length d)")
  show "wf (measure (\<lambda>(n, d, s). length d))"
    by simp
next
  fix n d :: "real list" and s :: real
  assume nz: "\<not> all_zero d"
  have len: "length (horner_steps s acc cs) = length cs" for acc cs
    by (induction cs arbitrary: acc) simp_all
  from nz have "d \<noteq> []"
    by (auto simp add: all_zero_def)
  then show "((deflate n s, deflate d s, s), (n, d, s)) \<in> measure (\<lambda>(n, d, s). length d)"
    by (simp add: deflate_def len)
qed

text \<open>
  An expression before simplification is the quotient of two polynomials, or some other
  expression, of which only the value is kept. The arithmetic of two quotients is that of
  fractions.
\<close>

datatype sym = Quot "real list" "real list" | Value expr

fun sym_value :: "sym \<Rightarrow> expr" where
  "sym_value (Quot n d) = rat_value n d"
| "sym_value (Value f) = f"

definition value_binop :: "(real \<Rightarrow> real \<Rightarrow> real option) \<Rightarrow> sym \<Rightarrow> sym \<Rightarrow> sym" where
  "value_binop f x y =
     Value (\<lambda>s. case (sym_value x s, sym_value y s) of
                  (Some u, Some v) \<Rightarrow> f u v
                | _ \<Rightarrow> None)"

definition e_const :: "real \<Rightarrow> sym" where
  "e_const c = Quot [c] [1]"

definition e_pow :: "nat \<Rightarrow> sym" where
  "e_pow k = Quot (1 # replicate k 0) [1]"

fun e_add :: "sym \<Rightarrow> sym \<Rightarrow> sym" where
  "e_add (Quot a b) (Quot c d) = Quot (polyadd (polymul a d) (polymul c b)) (polymul b d)"
| "e_add x y = value_binop (\<lambda>u v. Some (u + v)) x y"

fun e_mul :: "sym \<Rightarrow> sym \<Rightarrow> sym" where
  "e_mul (Quot a b) (Quot c d) = Quot (polymul a c) (polymul b d)"
| "e_mul x y = value_binop (\<lambda>u v. Some (u * v)) x y"

fun e_div :: "sym \<Rightarrow> sym \<Rightarrow> sym" where
  "e_div (Quot a b) (Quot c d) = Quot (polymul a d) (polymul b c)"
| "e_div x y = value_binop (\<lambda>u v. if v = 0 then None else Some (u / v)) x y"

text \<open>
  \<^verbatim>\<open>sp.Poly(cs, s).as_expr()\<close> is the polynomial with coefficient sequence \<open>cs\<close>, of degree
  length minus one. \<^verbatim>\<open>sp.simplify\<close> cancels the common factors of a quotient and returns
  an expression of the same value.
\<close>

definition Poly_as_expr :: "real list \<Rightarrow> sym" where
  "Poly_as_expr cs = Quot cs [1]"

definition simplify :: "sym \<Rightarrow> expr" where
  "simplify e = sym_value e"

text \<open>
  \<^verbatim>\<open>symbolic_analysis(num, den)\<close>. The routines \<^verbatim>\<open>sp.integrate\<close> and \<^verbatim>\<open>sp.diff\<close> are
  parameters.
\<close>

definition symbolic_analysis ::
  "(expr \<Rightarrow> sym) \<Rightarrow> (expr \<Rightarrow> sym) \<Rightarrow> real list \<Rightarrow> real list \<Rightarrow> expr \<times> expr \<times> expr" where
  "symbolic_analysis integrate diff n d =
     (let num_poly = Poly_as_expr n;
          den_poly = Poly_as_expr d;
          Gs = simplify (e_div num_poly den_poly)
      in (Gs, simplify (integrate Gs), simplify (diff Gs)))"

text \<open>
  In \<^verbatim>\<open>tf_to_sympy\<close> the script indexes the attributes of the transfer function itself, so
  the values it computes with are arrays as well as scalars. An object is a scalar
  expression or a one-dimensional array of expressions. Arithmetic between an array and a
  scalar acts on every element; between two arrays it acts element by element, an array of
  length one being stretched to the length of the other, and raises \<^verbatim>\<open>ValueError\<close> when
  the lengths cannot be matched.
\<close>

datatype 'e pyobj = Scalar 'e | Array "'e list"

definition broadcast2 :: "(sym \<Rightarrow> sym \<Rightarrow> sym) \<Rightarrow> sym list \<Rightarrow> sym list \<Rightarrow> error + sym pyobj" where
  "broadcast2 f xs ys =
     (if length xs = length ys then Inr (Array (map2 f xs ys))
      else if length xs = 1 then Inr (Array (map (f (hd xs)) ys))
      else if length ys = 1 then Inr (Array (map (\<lambda>x. f x (hd ys)) xs))
      else Inl ValueError)"

fun obj_binop :: "(sym \<Rightarrow> sym \<Rightarrow> sym) \<Rightarrow> sym pyobj \<Rightarrow> sym pyobj \<Rightarrow> error + sym pyobj" where
  "obj_binop f (Scalar a) (Scalar b) = Inr (Scalar (f a b))"
| "obj_binop f (Scalar a) (Array ys) = Inr (Array (map (f a) ys))"
| "obj_binop f (Array xs) (Scalar b) = Inr (Array (map (\<lambda>x. f x b) xs))"
| "obj_binop f (Array xs) (Array ys) = broadcast2 f xs ys"

text \<open>A coefficient array times a scalar expression.\<close>

definition array_times :: "real list \<Rightarrow> sym \<Rightarrow> sym pyobj" where
  "array_times cs e = Array (map (\<lambda>c. e_mul (e_const c) e) cs)"

text \<open>Python's \<^verbatim>\<open>sum\<close>: the terms are added from the left, starting from 0.\<close>

fun py_sum_from :: "sym pyobj \<Rightarrow> sym pyobj list \<Rightarrow> error + sym pyobj" where
  "py_sum_from acc [] = Inr acc"
| "py_sum_from acc (t # ts) =
     (case obj_binop e_add acc t of
        Inl e \<Rightarrow> Inl e
      | Inr acc' \<Rightarrow> py_sum_from acc' ts)"

definition py_sum :: "sym pyobj list \<Rightarrow> error + sym pyobj" where
  "py_sum ts = py_sum_from (Scalar (e_const 0)) ts"

fun obj_simplify :: "sym pyobj \<Rightarrow> expr pyobj" where
  "obj_simplify (Scalar e) = Scalar (simplify e)"
| "obj_simplify (Array es) = Array (map simplify es)"

text \<open>
  \<^verbatim>\<open>tf_to_sympy(sys)\<close>. The generator runs \<open>i\<close> over \<^verbatim>\<open>range(len(sys.num[0]))\<close> and
  multiplies \<^verbatim>\<open>sys.num[0][i]\<close>, which is the coefficient array from input \<open>i\<close>, by the power
  \<^verbatim>\<open>s**(len(sys.num[0]) - i - 1)\<close>; likewise for the denominator. With both sums empty the
  quotient is that of the Python integers 0 and 0.
\<close>

definition tf_to_sympy :: "real tf \<Rightarrow> error + expr pyobj" where
  "tf_to_sympy sys =
     (case (num sys, den sys) of
        (n0 # _, d0 # _) \<Rightarrow>
          (case py_sum (map (\<lambda>i. array_times (n0 ! i) (e_pow (length n0 - i - 1)))
                            [0..<length n0]) of
             Inl e \<Rightarrow> Inl e
           | Inr num_sum \<Rightarrow>
               (case py_sum (map (\<lambda>i. array_times (d0 ! i) (e_pow (length d0 - i - 1)))
                                 [0..<length d0]) of
                  Inl e \<Rightarrow> Inl e
                | Inr den_sum \<Rightarrow>
                    if n0 = [] \<and> d0 = [] then Inl ZeroDivisionError
                    else (case obj_binop e_div num_sum den_sum of
                            Inl e \<Rightarrow> Inl e
                          | Inr q \<Rightarrow> Inr (obj_simplify q))))
      | _ \<Rightarrow> Inl IndexError)"

text \<open>The value of an object at a point: a number, or the list of the elements' values.\<close>

datatype pyval = ScalarV "real option" | ArrayV "real option list"

fun obj_at :: "expr pyobj \<Rightarrow> real \<Rightarrow> pyval" where
  "obj_at (Scalar e) s = ScalarV (e s)"
| "obj_at (Array es) s = ArrayV (map (\<lambda>e. e s) es)"

text \<open>
  Two coefficient pairs are proportional when one is the other multiplied throughout by a
  common nonzero scalar (section 4.1).
\<close>

definition proportional :: "real list \<times> real list \<Rightarrow> real list \<times> real list \<Rightarrow> bool" where
  "proportional a b =
     (\<exists>c. c \<noteq> 0 \<and> fst a = map ((*) c) (fst b) \<and> snd a = map ((*) c) (snd b))"

section \<open>Polynomial arithmetic on coefficient sequences\<close>

text \<open>
  The value of a sequence splits at its head, and addition and multiplication of sequences
  are addition and multiplication of values.
\<close>

lemma all_zero_Nil: "all_zero []"
  by (simp add: all_zero_def)

lemma foldl_horner_acc:
  "foldl (\<lambda>acc c. acc * x + c) a cs = a * x ^ length cs + foldl (\<lambda>acc c. acc * x + c) (0::'a::comm_ring_1) cs"
proof (induction cs arbitrary: a)
  case Nil
  show ?case by simp
next
  case (Cons c cs)
  show ?case
    using Cons.IH[of "a * x + c"] Cons.IH[of c]
    by (simp add: algebra_simps)
qed

lemma peval_Nil: "peval [] x = 0"
  by (simp add: peval_def)

lemma peval_Cons: "peval (c # cs) x = c * x ^ length cs + peval cs x"
  unfolding peval_def by (simp, subst foldl_horner_acc) simp

lemma peval_append: "peval (xs @ ys) x = peval xs x * x ^ length ys + peval ys x"
  by (induction xs) (simp_all add: peval_Nil peval_Cons algebra_simps power_add)

lemma peval_replicate_zero: "peval (replicate n 0) x = 0"
  by (induction n) (simp_all add: peval_Nil peval_Cons)

lemma peval_map_scale: "peval (map ((*) c) ys) x = c * peval ys x"
  by (induction ys) (simp_all add: peval_Nil peval_Cons algebra_simps)

lemma peval_map2_add:
  "length xs = length ys \<Longrightarrow> peval (map2 (+) xs ys) x = peval xs x + peval ys x"
  by (induction xs ys rule: list_induct2) (simp_all add: peval_Nil peval_Cons algebra_simps)

lemma peval_polyadd: "peval (polyadd xs ys) x = peval xs x + peval ys x"
  by (simp add: polyadd_def Let_def peval_map2_add peval_append peval_replicate_zero)

lemma peval_polymul: "peval (polymul xs ys) x = peval xs x * peval ys x"
  by (induction xs)
    (simp_all add: peval_Nil peval_Cons peval_polyadd peval_append peval_map_scale
      peval_replicate_zero algebra_simps)

text \<open>Multiplying by the constant 1 changes nothing.\<close>

lemma map2_add_zeros_left: "map2 (+) (replicate (length xs) (0::'a::comm_ring_1)) xs = xs"
  by (induction xs) simp_all

lemma polymul_one_right: "polymul xs [1] = xs"
proof (induction xs)
  case Nil
  show ?case by simp
next
  case (Cons x xs)
  then show ?case
    by (simp add: polyadd_def map2_add_zeros_left)
qed

lemma polymul_one_left: "polymul [1] d = d"
proof -
  have "map2 (+) xs (replicate (length xs) (0::'a)) = xs" for xs :: "'a::comm_ring_1 list"
    by (induction xs) simp_all
  moreover have "map ((*) 1) d = d"
    by (induction d) simp_all
  ultimately show ?thesis
    by (simp add: polyadd_def)
qed

text \<open>
  Over an integral domain the product of two sequences that are not identically zero is not
  identically zero: leading zeros move to the front of the product, and the product of the
  two leading nonzero coefficients is the leading coefficient of what remains.
\<close>

lemma length_polyadd: "length (polyadd xs ys) = max (length xs) (length ys)"
  by (simp add: polyadd_def Let_def)

lemma length_polymul_Cons: "length (polymul (x # xs) ys) = length xs + length ys"
proof (induction xs arbitrary: x)
  case Nil
  show ?case by (simp add: length_polyadd)
next
  case (Cons a xs)
  show ?case
    using Cons.IH[of a] by (simp add: length_polyadd)
qed

lemma length_polymul_le: "length (polymul xs ys) \<le> length xs + length ys"
  by (cases xs) (simp_all add: length_polymul_Cons del: polymul.simps(2))

lemma all_zero_Cons: "all_zero (c # cs) \<longleftrightarrow> c = 0 \<and> all_zero cs"
  by (simp add: all_zero_def)

lemma all_zero_append: "all_zero (xs @ ys) \<longleftrightarrow> all_zero xs \<and> all_zero ys"
  by (simp add: all_zero_def)

lemma all_zero_replicate: "all_zero (replicate n 0)"
  by (simp add: all_zero_def list_all_iff)

lemma map2_add_zeros_right: "map2 (+) xs (replicate (length xs) (0::'a::comm_ring_1)) = xs"
  by (induction xs) simp_all

lemma polyadd_zeros_left:
  "length B \<le> n \<Longrightarrow> polyadd (replicate n 0) B = replicate (n - length B) 0 @ B"
proof -
  assume le: "length B \<le> n"
  have "map2 (+) (replicate n 0) (replicate (n - length B) 0 @ B) = replicate (n - length B) 0 @ B"
    using le map2_add_zeros_left[of "replicate (n - length B) 0 @ B"] by simp
  then show ?thesis
    using le by (simp add: polyadd_def Let_def max_absorb1)
qed

lemma polyadd_Nil_right: "polyadd A [] = A"
  by (simp add: polyadd_def Let_def map2_add_zeros_right)

lemma polyadd_zero_Cons: "polyadd (0 # A) (0 # B) = 0 # polyadd A B"
proof -
  have pad: "replicate k 0 @ (0 # C) = 0 # (replicate k 0 @ C)" for k and C :: "'a list"
    by (simp add: replicate_append_same)
  show ?thesis
    by (simp add: polyadd_def Let_def pad)
qed

lemma polymul_zero_Cons_right: "xs \<noteq> [] \<Longrightarrow> polymul xs (0 # ys) = 0 # polymul xs ys"
proof (induction xs)
  case Nil
  then show ?case by simp
next
  case (Cons x xs)
  show ?case
  proof (cases "xs = []")
    case True
    then show ?thesis by (simp add: polyadd_Nil_right)
  next
    case False
    then show ?thesis
      using Cons.IH by (simp add: polyadd_zero_Cons)
  qed
qed

lemma all_zero_polymul_zero_Cons_left:
  "all_zero (polymul (0 # xs) ys) \<longleftrightarrow> all_zero (polymul xs ys)"
proof -
  have "map ((*) 0) ys = replicate (length ys) (0::'a)"
    by (induction ys) simp_all
  then have "polymul (0 # xs) ys = polyadd (replicate (length ys + length xs) 0) (polymul xs ys)"
    by (simp add: replicate_add)
  also have "\<dots> = replicate (length ys + length xs - length (polymul xs ys)) 0 @ polymul xs ys"
    using length_polymul_le[of xs ys] by (intro polyadd_zeros_left) simp
  finally show ?thesis
    by (simp add: all_zero_append all_zero_replicate)
qed

lemma polymul_heads_nonzero:
  fixes x y :: "'a::idom"
  assumes "x \<noteq> 0" "y \<noteq> 0"
  shows "\<not> all_zero (polymul (x # xs) (y # ys))"
proof -
  let ?A = "map ((*) x) ys @ replicate (length xs) 0"
  let ?B = "polymul xs (y # ys)"
  have len: "length ?B \<le> length ?A"
    by (cases xs) (simp_all add: length_polymul_Cons del: polymul.simps(2))
  have "polymul (x # xs) (y # ys) = polyadd ((x * y) # ?A) ?B"
    by simp
  also have "\<dots> = map2 (+) ((x * y) # ?A) (replicate (Suc (length ?A) - length ?B) 0 @ ?B)"
    using len by (simp add: polyadd_def Let_def max_absorb1)
  also have "replicate (Suc (length ?A) - length ?B) 0 @ ?B
      = 0 # (replicate (length ?A - length ?B) 0 @ ?B)"
    using len by (simp add: Suc_diff_le)
  finally have "hd (polymul (x # xs) (y # ys)) = x * y"
    by simp
  moreover have "polymul (x # xs) (y # ys) \<noteq> []"
    using length_polymul_Cons[of x xs "y # ys"] by auto
  ultimately show ?thesis
    using assms by (cases "polymul (x # xs) (y # ys)") (auto simp add: all_zero_Cons)
qed

lemma polymul_nonzero_right:
  fixes x :: "'a::idom"
  assumes "x \<noteq> 0"
  shows "\<not> all_zero ys \<Longrightarrow> \<not> all_zero (polymul (x # xs) ys)"
proof (induction ys)
  case Nil
  then show ?case by (simp add: all_zero_Nil)
next
  case (Cons y ys)
  show ?case
  proof (cases "y = 0")
    case True
    then show ?thesis
      using Cons by (simp add: polymul_zero_Cons_right all_zero_Cons del: polymul.simps)
  next
    case False
    then show ?thesis
      using assms by (rule polymul_heads_nonzero[rotated])
  qed
qed

lemma polymul_nonzero:
  fixes xs ys :: "'a::idom list"
  shows "\<not> all_zero xs \<Longrightarrow> \<not> all_zero ys \<Longrightarrow> \<not> all_zero (polymul xs ys)"
proof (induction xs)
  case Nil
  then show ?case by (simp add: all_zero_Nil)
next
  case (Cons x xs)
  show ?case
  proof (cases "x = 0")
    case True
    then show ?thesis
      using Cons by (simp add: all_zero_polymul_zero_Cons_left all_zero_Cons del: polymul.simps)
  next
    case False
    then show ?thesis
      using Cons.prems(2) by (rule polymul_nonzero_right)
  qed
qed


text \<open>
  A sequence of reals whose value is zero at every point is identically zero, and two
  sequences whose difference is identically zero are equal up to leading zeros.
\<close>

lemma peval_as_sum: "peval cs x = (\<Sum>i<length cs. rev cs ! i * x ^ i)"
proof (induction cs rule: rev_induct)
  case Nil
  show ?case by (simp add: peval_Nil)
next
  case (snoc c cs)
  have "peval (cs @ [c]) x = peval cs x * x + c"
    by (simp add: peval_append peval_Cons peval_Nil)
  also have "\<dots> = (\<Sum>i<length cs. rev cs ! i * x ^ i) * x + c"
    by (simp add: snoc.IH)
  also have "\<dots> = (\<Sum>i<length cs. (c # rev cs) ! Suc i * x ^ Suc i) + (c # rev cs) ! 0 * x ^ 0"
    by (simp add: sum_distrib_right sum_distrib_left mult_ac)
  also have "\<dots> = (\<Sum>i<Suc (length cs). (c # rev cs) ! i * x ^ i)"
    by (subst sum.lessThan_Suc_shift) simp
  finally show ?case by simp
qed

lemma peval_zero_all_zero:
  fixes p :: "real list"
  assumes "\<forall>x. peval p x = 0"
  shows "all_zero p"
proof -
  define c where "c i = (if i < length p then rev p ! i else 0)" for i
  have "(\<Sum>i\<le>length p. c i * x ^ i) = peval p x" for x
    by (simp add: peval_as_sum c_def lessThan_Suc_atMost [symmetric])
  with assms have "\<forall>x. (\<Sum>i\<le>length p. c i * x ^ i) = 0"
    by simp
  then have zero: "\<forall>i\<le>length p. c i = 0"
    by (simp only: polyfun_eq_0)
  have "\<forall>i<length p. rev p ! i = 0"
  proof (intro allI impI)
    fix i
    assume i: "i < length p"
    with zero have "c i = 0"
      by simp
    with i show "rev p ! i = 0"
      by (simp add: c_def)
  qed
  then have "\<forall>a\<in>set (rev p). a = 0"
    by (metis in_set_conv_nth length_rev)
  then show ?thesis
    by (simp add: all_zero_def list_all_iff)
qed

lemma peval_map_uminus: "peval (map uminus ys) x = - peval ys x"
  by (induction ys) (simp_all add: peval_Nil peval_Cons)

lemma dropWhile_zeros_append: "dropWhile (\<lambda>c. c = 0) (replicate k 0 @ xs) = dropWhile (\<lambda>c. c = 0) xs"
  by (induction k) simp_all

lemma map2_sub_zero_eq:
  "length xs = length ys \<Longrightarrow> all_zero (map2 (+) xs (map uminus ys)) \<Longrightarrow> xs = (ys :: 'a::comm_ring_1 list)"
  by (induction xs ys rule: list_induct2) (simp_all add: all_zero_def)

lemma polysub_zero_strip_eq:
  fixes A B :: "'a::comm_ring_1 list"
  assumes "all_zero (polyadd A (map uminus B))"
  shows "dropWhile (\<lambda>c. c = 0) A = dropWhile (\<lambda>c. c = 0) B"
proof -
  let ?n = "max (length A) (length B)"
  let ?A = "replicate (?n - length A) 0 @ A"
  let ?B = "replicate (?n - length B) 0 @ B"
  have "map uminus ?B = replicate (?n - length B) 0 @ map uminus B"
    by simp
  with assms have "all_zero (map2 (+) ?A (map uminus ?B))"
    by (simp add: polyadd_def Let_def)
  moreover have "length ?A = length ?B"
    by simp
  ultimately have "?A = ?B"
    by (rule map2_sub_zero_eq[rotated])
  then have "dropWhile (\<lambda>c. c = 0) ?A = dropWhile (\<lambda>c. c = 0) ?B"
    by simp
  then show ?thesis
    by (simp only: dropWhile_zeros_append)
qed

text \<open>
  The division step of the cancellation is exact: \<open>deflate cs s\<close> is the quotient of \<open>cs\<close>
  by \<open>x - s\<close>, and the remainder is the value of \<open>cs\<close> at \<open>s\<close>.
\<close>

lemma length_horner_steps: "length (horner_steps s acc cs) = length cs"
  by (induction cs arbitrary: acc) simp_all

lemma horner_steps_division:
  "cs \<noteq> [] \<Longrightarrow>
   acc * x ^ length cs + peval cs x
     = (x - s) * peval (acc # butlast (horner_steps s acc cs)) x + last (horner_steps s acc cs)"
proof (induction cs arbitrary: acc)
  case Nil
  then show ?case by simp
next
  case (Cons c cs)
  show ?case
  proof (cases "cs = []")
    case True
    then show ?thesis
      by (simp add: peval_Cons peval_Nil algebra_simps)
  next
    case False
    define b where "b = acc * s + c"
    define H where "H = horner_steps s b cs"
    obtain n where n: "length cs = Suc n"
      using False by (cases cs) auto
    have Hlen: "length H = Suc n"
      by (simp add: H_def length_horner_steps n)
    then have Hne: "H \<noteq> []"
      by auto
    have IH: "b * x ^ Suc n + peval cs x = (x - s) * peval (b # butlast H) x + last H"
      using Cons.IH[OF False, of b] by (simp add: H_def n)
    have "(x - s) * peval (acc # butlast (horner_steps s acc (c # cs))) x
        + last (horner_steps s acc (c # cs))
      = (x - s) * peval (acc # b # butlast H) x + last H"
      using Hne by (simp add: b_def H_def)
    also have "\<dots> = (x - s) * (acc * x ^ Suc n) + ((x - s) * peval (b # butlast H) x + last H)"
      by (simp add: peval_Cons[of acc] Hlen algebra_simps)
    also have "\<dots> = (x - s) * (acc * x ^ Suc n) + (b * x ^ Suc n + peval cs x)"
      by (simp only: IH)
    also have "\<dots> = acc * x ^ length (c # cs) + peval (c # cs) x"
      by (simp add: peval_Cons[of c] n b_def algebra_simps)
    finally show ?thesis
      by simp
  qed
qed

lemma last_horner_steps: "cs \<noteq> [] \<Longrightarrow> last (horner_steps s acc cs) = acc * s ^ length cs + peval cs s"
proof (induction cs arbitrary: acc)
  case Nil
  then show ?case by simp
next
  case (Cons c cs)
  show ?case
  proof (cases "cs = []")
    case True
    then show ?thesis by (simp add: peval_Cons peval_Nil)
  next
    case False
    then have "horner_steps s (acc * s + c) cs \<noteq> []"
      by (cases cs) simp_all
    then show ?thesis
      using Cons.IH[OF False, of "acc * s + c"] by (simp add: peval_Cons algebra_simps)
  qed
qed

lemma deflate_division: "peval cs x = (x - s) * peval (deflate cs s) x + peval cs s"
proof (cases "cs = []")
  case True
  then show ?thesis
    by (simp add: deflate_def peval_Nil)
next
  case False
  then show ?thesis
    using horner_steps_division[OF False, of 0 x s] last_horner_steps[OF False, of s 0]
    by (simp add: deflate_def peval_Cons)
qed

text \<open>
  The value of a quotient away from the roots of its denominator, and the first component
  of \<open>symbolic_analysis\<close>.
\<close>

lemma rat_value_regular:
  "\<not> all_zero d \<Longrightarrow> peval d s \<noteq> 0 \<Longrightarrow> rat_value n d s = Some (peval n s / peval d s)"
  by (subst rat_value.simps) simp

lemma symbolic_analysis_fst:
  "fst (symbolic_analysis integ dif n d) = rat_value n d"
  by (simp add: symbolic_analysis_def Let_def simplify_def Poly_as_expr_def
      polymul_one_left polymul_one_right del: polymul.simps)

text \<open>
  Two quotients with the same value everywhere have equal cross products, as coefficient
  sequences without their leading zeros.
\<close>

lemma same_value_cross_product:
  assumes d: "\<not> all_zero d" and d': "\<not> all_zero d'"
    and same: "rat_value n' d' = rat_value n d"
  shows "dropWhile (\<lambda>c. c = 0) (polymul n' d) = dropWhile (\<lambda>c. c = 0) (polymul n d')"
proof -
  let ?P = "polyadd (polymul n' d) (map uminus (polymul n d'))"
  have "peval (polymul ?P (polymul d d')) x = 0" for x
  proof (cases "peval d x = 0 \<or> peval d' x = 0")
    case True
    then show ?thesis
      by (auto simp add: peval_polymul)
  next
    case False
    then have "rat_value n d x = Some (peval n x / peval d x)"
      and "rat_value n' d' x = Some (peval n' x / peval d' x)"
      using d d' by (simp_all add: rat_value_regular)
    with same have "peval n' x / peval d' x = peval n x / peval d x"
      by simp
    with False have "peval n' x * peval d x = peval n x * peval d' x"
      by (simp add: field_simps)
    then show ?thesis
      by (simp add: peval_polymul peval_polyadd peval_map_uminus)
  qed
  then have "all_zero (polymul ?P (polymul d d'))"
    by (simp add: peval_zero_all_zero)
  moreover have "\<not> all_zero (polymul d d')"
    using d d' by (rule polymul_nonzero)
  ultimately have "all_zero ?P"
    using polymul_nonzero[of ?P "polymul d d'"] by blast
  then show ?thesis
    by (rule polysub_zero_strip_eq)
qed

text \<open>
  Three pairs of quotients with the same value: a common factor cancels against a double
  root, a quotient cancels completely, and a leading zero of the numerator does not count.
\<close>

lemma rat_value_one: "rat_value [1] [1] = (\<lambda>s. Some 1)"
  by (rule ext) (simp add: rat_value_regular all_zero_def peval_def)

lemma rat_value_simple_pole:
  "rat_value [1] [1, 1] s = (if s = - 1 then None else Some (1 / (s + 1)))"
  by (subst rat_value.simps) (auto simp add: all_zero_def peval_def)

lemma rat_value_cancel_factor: "rat_value [1, 1] [1, 2, 1] = rat_value [1] [1, 1]"
proof (rule ext)
  fix s :: real
  have sq: "peval [1, 2, 1] s = (s + 1) * (s + 1)" and lin: "peval [1, 1] s = s + 1"
    and cst: "peval [1] s = 1"
    by (simp_all add: peval_def algebra_simps)
  show "rat_value [1, 1] [1, 2, 1] s = rat_value [1] [1, 1] s"
  proof (cases "s = - 1")
    case True
    have "rat_value [1, 1] [1, 2, 1] (- 1) = rat_value [1] [1, 1] (- 1)"
      by (subst rat_value.simps) (simp add: all_zero_def peval_def deflate_def)
    with True show ?thesis by simp
  next
    case False
    then have "s + 1 \<noteq> 0" by linarith
    then show ?thesis
      by (subst rat_value.simps) (simp add: all_zero_def sq lin cst rat_value_simple_pole False)
  qed
qed

lemma rat_value_cancel_all: "rat_value [1, 1] [1, 1] = rat_value [1] [1]"
proof (rule ext)
  fix s :: real
  have lin: "peval [1, 1] s = s + 1"
    by (simp add: peval_def)
  show "rat_value [1, 1] [1, 1] s = rat_value [1] [1] s"
  proof (cases "s = - 1")
    case True
    have "rat_value [1, 1] [1, 1] (- 1) = rat_value [1] [1] (- 1)"
      by (subst rat_value.simps) (simp add: all_zero_def peval_def deflate_def)
    with True show ?thesis by simp
  next
    case False
    then have "s + 1 \<noteq> 0" by linarith
    then show ?thesis
      by (subst rat_value.simps) (simp add: all_zero_def lin rat_value_one)
  qed
qed

lemma rat_value_leading_zero: "rat_value [0, 1] [1] = rat_value [1] [1]"
  by (rule ext) (simp add: rat_value_regular all_zero_def peval_def)

text \<open>
  Binary64 arithmetic: two roundings, and the operations on 0 and 1.
\<close>

lemma b64_zero: "b64 0 = Fin 0"
  by (simp add: b64_def)







































section \<open>The advice: threshold ladder\<close>

text \<open>
  C1. Whenever the library calls succeed, the advice is the ladder applied to the metrics
  dictionary, and the ladder is evaluated in the stated order: P when overshoot < 1 and
  settling time < 2; otherwise PI when overshoot < 10; otherwise PD when overshoot > 20;
  otherwise PID; each with its fixed rationale. The four examples of the specification
  follow, the third for any settling time, given or not.
\<close>

theorem conseil_regulateur_ladder:
  fixes info :: "string \<rightharpoonup> pyfloat"
  defines "ov \<equiv> dict_get info ''Overshoot'' (Fin 0)"
    and "st \<equiv> dict_get info ''SettlingTime'' (Fin 0)"
  shows "(system_poles api sys = Inr ps \<and> control_step_info api sys = Inr info
            \<longrightarrow> conseil_regulateur api sys = Inr (recommend info))
       \<and> (fl_lt ov (Fin 1) \<and> fl_lt st (Fin 2) \<longrightarrow> recommend info = (''P'', msg_P))
       \<and> (\<not> (fl_lt ov (Fin 1) \<and> fl_lt st (Fin 2)) \<and> fl_lt ov (Fin 10)
            \<longrightarrow> recommend info = (''PI'', msg_PI))
       \<and> (\<not> (fl_lt ov (Fin 1) \<and> fl_lt st (Fin 2)) \<and> \<not> fl_lt ov (Fin 10) \<and> fl_gt ov (Fin 20)
            \<longrightarrow> recommend info = (''PD'', msg_PD))
       \<and> (\<not> (fl_lt ov (Fin 1) \<and> fl_lt st (Fin 2)) \<and> \<not> fl_lt ov (Fin 10) \<and> \<not> fl_gt ov (Fin 20)
            \<longrightarrow> recommend info = (''PID'', msg_PID))
       \<and> recommend [''Overshoot'' \<mapsto> Fin 0.5, ''SettlingTime'' \<mapsto> Fin 1] = (''P'', msg_P)
       \<and> recommend [''Overshoot'' \<mapsto> Fin 5, ''SettlingTime'' \<mapsto> Fin 3] = (''PI'', msg_PI)
       \<and> recommend [''Overshoot'' \<mapsto> Fin 25] = (''PD'', msg_PD)
       \<and> recommend [''Overshoot'' \<mapsto> Fin 25, ''SettlingTime'' \<mapsto> t] = (''PD'', msg_PD)
       \<and> recommend [''Overshoot'' \<mapsto> Fin 15, ''SettlingTime'' \<mapsto> Fin 3] = (''PID'', msg_PID)"
  unfolding ov_def st_def
  by (simp add: conseil_regulateur_def recommend_def dict_get_def fl_gt_def Let_def)

theorem conseil_regulateur_ladder_witness:
  "conseil_regulateur metrics_api [''Overshoot'' \<mapsto> Fin 0.5, ''SettlingTime'' \<mapsto> Fin 1]
       = Inr (''P'', msg_P)
   \<and> conseil_regulateur metrics_api [''Overshoot'' \<mapsto> Fin 5, ''SettlingTime'' \<mapsto> Fin 3]
       = Inr (''PI'', msg_PI)
   \<and> conseil_regulateur metrics_api [''Overshoot'' \<mapsto> Fin 25, ''SettlingTime'' \<mapsto> NaN]
       = Inr (''PD'', msg_PD)
   \<and> conseil_regulateur metrics_api [''Overshoot'' \<mapsto> Fin 15, ''SettlingTime'' \<mapsto> Fin 3]
       = Inr (''PID'', msg_PID)"
proof -
  have api: "system_poles metrics_api i = Inr [] \<and> control_step_info metrics_api i = Inr i" for i
    by (simp add: system_poles_def metrics_api_def)
  show ?thesis
    using conseil_regulateur_ladder
      [of metrics_api "[''Overshoot'' \<mapsto> Fin 0.5, ''SettlingTime'' \<mapsto> Fin 1]" "[]"
          "[''Overshoot'' \<mapsto> Fin 0.5, ''SettlingTime'' \<mapsto> Fin 1]" NaN]
      conseil_regulateur_ladder
      [of metrics_api "[''Overshoot'' \<mapsto> Fin 5, ''SettlingTime'' \<mapsto> Fin 3]" "[]"
          "[''Overshoot'' \<mapsto> Fin 5, ''SettlingTime'' \<mapsto> Fin 3]" NaN]
      conseil_regulateur_ladder
      [of metrics_api "[''Overshoot'' \<mapsto> Fin 25, ''SettlingTime'' \<mapsto> NaN]" "[]"
          "[''Overshoot'' \<mapsto> Fin 25, ''SettlingTime'' \<mapsto> NaN]" NaN]
      conseil_regulateur_ladder
      [of metrics_api "[''Overshoot'' \<mapsto> Fin 15, ''SettlingTime'' \<mapsto> Fin 3]" "[]"
          "[''Overshoot'' \<mapsto> Fin 15, ''SettlingTime'' \<mapsto> Fin 3]" NaN]
      api
    by simp
qed

section \<open>The advice: undefined overshoot\<close>

text \<open>
  C2 (as stated, refuted). With a metrics dictionary that holds no overshoot, the advice
  does not fail: it takes 0 for the missing value and recommends P. With an overshoot and a
  settling time that are both NaN it recommends PID.
\<close>

theorem conseil_regulateur_undefined_overshoot_counterexample:
  "conseil_regulateur metrics_api Map.empty = Inr (''P'', msg_P)
   \<and> conseil_regulateur metrics_api Map.empty \<noteq> Inl IndeterminateRecommendation
   \<and> conseil_regulateur metrics_api [''Overshoot'' \<mapsto> NaN, ''SettlingTime'' \<mapsto> NaN]
       = Inr (''PID'', msg_PID)"
  by (simp add: conseil_regulateur_def system_poles_def metrics_api_def recommend_def
      dict_get_def fl_gt_def)

text \<open>
  C2 (amended). Whenever the library calls succeed, the advice returns a recommendation and
  never \<open>IndeterminateRecommendation\<close>. When the metrics hold no overshoot, the overshoot is
  taken to be 0: the advice is P when the settling time (0 when missing as well) is below
  2, and PI otherwise. When the overshoot is NaN, the advice is PID.
\<close>

theorem conseil_regulateur_default_overshoot:
  "(system_poles api sys = Inr ps \<and> control_step_info api sys = Inr info
      \<longrightarrow> conseil_regulateur api sys = Inr (recommend info))
   \<and> (info ''Overshoot'' = None
      \<longrightarrow> recommend info =
          (if fl_lt (dict_get info ''SettlingTime'' (Fin 0)) (Fin 2) then (''P'', msg_P)
           else (''PI'', msg_PI)))
   \<and> (info ''Overshoot'' = Some NaN \<longrightarrow> recommend info = (''PID'', msg_PID))"
  by (simp add: conseil_regulateur_def recommend_def dict_get_def fl_gt_def)

theorem conseil_regulateur_default_overshoot_witness:
  "conseil_regulateur metrics_api [''SettlingTime'' \<mapsto> Fin 3] = Inr (''PI'', msg_PI)
   \<and> recommend [''Overshoot'' \<mapsto> NaN] = (''PID'', msg_PID)"
proof -
  have api: "system_poles metrics_api i = Inr [] \<and> control_step_info metrics_api i = Inr i" for i
    by (simp add: system_poles_def metrics_api_def)
  show ?thesis
    using conseil_regulateur_default_overshoot
      [of metrics_api "[''SettlingTime'' \<mapsto> Fin 3]" "[]" "[''SettlingTime'' \<mapsto> Fin 3]"]
      conseil_regulateur_default_overshoot
      [of metrics_api "[''Overshoot'' \<mapsto> NaN]" "[]" "[''Overshoot'' \<mapsto> NaN]"]
      api
    by (simp add: dict_get_def)
qed

section \<open>The poles\<close>

text \<open>
  C6 (as stated, refuted). When the library routine returns the poles 2 and 1 in this
  order, the pole computation of the script returns them in this order, which is not
  ascending.
\<close>

theorem system_poles_unsorted_counterexample:
  "system_poles (poles_api [2, 1]) () = Inr [2, 1] \<and> \<not> pole_sorted [2, 1]"
  by (simp add: system_poles_def poles_api_def pole_sorted_def)

text \<open>
  C6 (amended). The pole computation returns exactly the sequence that \<^verbatim>\<open>control.poles\<close>
  returns, or the one that \<^verbatim>\<open>control.pole\<close> returns when the first call raises, in the
  order of the library and without sorting it.
\<close>

theorem system_poles_library_order:
  "(control_poles api sys = Inr ps \<longrightarrow> system_poles api sys = Inr ps)
   \<and> (control_poles api sys = Inl e \<longrightarrow> system_poles api sys = control_pole api sys)
   \<and> (system_poles api sys = Inr ps
        \<longrightarrow> control_poles api sys = Inr ps \<or> control_pole api sys = Inr ps)"
  by (auto simp add: system_poles_def split: sum.splits)

theorem system_poles_library_order_witness:
  "system_poles (poles_api [2, 1]) () = Inr [2, 1]
   \<and> system_poles (poles_api [Complex (- 1) 1, Complex (- 1) (- 1)]) ()
       = Inr [Complex (- 1) 1, Complex (- 1) (- 1)]"
proof -
  have "control_poles (poles_api ps) () = Inr ps" for ps
    by (simp add: poles_api_def)
  then show ?thesis
    using system_poles_library_order[of "poles_api [2, 1]" "()" "[2, 1]"]
      system_poles_library_order[of "poles_api [Complex (- 1) 1, Complex (- 1) (- 1)]" "()"
        "[Complex (- 1) 1, Complex (- 1) (- 1)]"]
    by simp
qed

section \<open>The PID controller\<close>

text \<open>
  C3 (as stated, refuted). With \<open>Kp = 1\<close>, \<open>Ki = 1\<close>, \<open>Kd = 0\<close> the numerator of the
  controller is \<open>[1, 1]\<close>, not \<open>[0, 1, 1]\<close>: the constructor removes the leading zero. With
  all gains zero the controller is \<open>0/1\<close>.
\<close>

theorem create_pid_leading_zero_counterexample:
  "create_pid (1::real) 1 0 = Inr \<lparr>num = [[[1, 1]]], den = [[[1, 0]]]\<rparr>
   \<and> create_pid (1::real) 1 0 \<noteq> Inr \<lparr>num = [[[0, 1, 1]]], den = [[[1, 0]]]\<rparr>
   \<and> create_pid (0::real) 0 0 = Inr \<lparr>num = [[[0]]], den = [[[1]]]\<rparr>"
  by (simp add: create_pid_def TransferFunction_def all_zero_def truncatecoeff_def)

text \<open>
  C3 (amended). For all gains, \<open>create_pid\<close> returns the system whose numerator is
  \<open>[Kd, Kp, Ki]\<close> without its leading zeros and whose denominator is \<open>[1, 0]\<close>; with all
  gains zero it returns \<open>0/1\<close>. When \<open>Kd\<close> is not zero the numerator is exactly
  \<open>[Kd, Kp, Ki]\<close>. With \<open>Kp = 1\<close>, \<open>Ki = 1\<close>, \<open>Kd = 0\<close> the numerator is \<open>[1, 1]\<close> and the
  denominator \<open>[1, 0]\<close>, whose values at \<open>s\<close> are \<open>s + 1\<close> and \<open>s\<close>.
\<close>

theorem create_pid_coefficients:
  "create_pid Kp Ki Kd =
     Inr (if Kd = 0 \<and> Kp = 0 \<and> Ki = 0 then \<lparr>num = [[[0]]], den = [[[1]]]\<rparr>
          else \<lparr>num = [[dropWhile (\<lambda>c. c = 0) [Kd, Kp, Ki]]], den = [[[1, 0]]]\<rparr>)
   \<and> (Kd \<noteq> 0 \<longrightarrow> create_pid Kp Ki Kd = Inr \<lparr>num = [[[Kd, Kp, Ki]]], den = [[[1, 0]]]\<rparr>)
   \<and> (\<forall>s::real. peval [1, 1] s = s + 1 \<and> peval [1, 0] s = s)"
  by (simp add: create_pid_def TransferFunction_def all_zero_def truncatecoeff_def peval_def)

theorem create_pid_coefficients_witness:
  "create_pid (1::real) 1 (1 / 10) = Inr \<lparr>num = [[[1 / 10, 1, 1]]], den = [[[1, 0]]]\<rparr>
   \<and> create_pid (1::real) 1 0 = Inr \<lparr>num = [[[1, 1]]], den = [[[1, 0]]]\<rparr>"
  using create_pid_coefficients[of "1::real" 1 "1 / 10"] create_pid_coefficients[of "1::real" 1 0]
  by simp



section \<open>The closed loop\<close>




section \<open>The symbolic expression\<close>

text \<open>
  C7 (as stated, refuted). Valid systems that are not proportional have the same symbolic
  expression: \<open>(s + 1)/(s\<^sup>2 + 2s + 1)\<close> and \<open>1/(s + 1)\<close>; \<open>(s + 1)/(s + 1)\<close> and \<open>1/1\<close>;
  numerator \<open>[0, 1]\<close> and numerator \<open>[1]\<close> over the denominator \<open>[1]\<close>. So no re-expansion of
  the expression reproduces every valid system up to a common nonzero scalar.
\<close>

theorem round_trip_counterexample:
  "fst (symbolic_analysis Value Value [1, 1] [1, 2, 1])
     = fst (symbolic_analysis Value Value [1] [1, 1])
   \<and> \<not> proportional ([1, 1], [1, 2, 1]) ([1], [1, 1])
   \<and> fst (symbolic_analysis Value Value [1, 1] [1, 1])
       = fst (symbolic_analysis Value Value [1] [1])
   \<and> \<not> proportional ([1, 1], [1, 1]) ([1], [1])
   \<and> fst (symbolic_analysis Value Value [0, 1] [1])
       = fst (symbolic_analysis Value Value [1] [1])
   \<and> \<not> proportional ([0, 1], [1]) ([1], [1])
   \<and> \<not> (\<exists>R. \<forall>n d. \<not> all_zero d
          \<longrightarrow> proportional (R (fst (symbolic_analysis Value Value n d))) (n, d))"
proof -
  have np: "\<not> proportional ([1, 1], [1, 2, 1]) ([1], [1, 1])"
    "\<not> proportional ([1, 1], [1, 1]) ([1], [1])"
    "\<not> proportional ([0, 1], [1]) ([1], [1])"
    by (simp_all add: proportional_def)
  have "\<not> (\<exists>R. \<forall>n d. \<not> all_zero d
          \<longrightarrow> proportional (R (fst (symbolic_analysis Value Value n d))) (n, d))"
  proof
    assume "\<exists>R. \<forall>n d. \<not> all_zero d
          \<longrightarrow> proportional (R (fst (symbolic_analysis Value Value n d))) (n, d)"
    then obtain R where R: "\<And>n d. \<not> all_zero d
          \<Longrightarrow> proportional (R (rat_value n d)) (n, d)"
      by (auto simp add: symbolic_analysis_fst)
    have a: "proportional (R (rat_value [1, 1] [1, 1])) ([1, 1], [1, 1])"
      by (rule R) (simp add: all_zero_def)
    have b: "proportional (R (rat_value [1] [1])) ([1], [1])"
      by (rule R) (simp add: all_zero_def)
    from a b show False
      unfolding rat_value_cancel_all by (auto simp add: proportional_def)
  qed
  with np show ?thesis
    by (simp add: symbolic_analysis_fst rat_value_cancel_factor rat_value_cancel_all
        rat_value_leading_zero)
qed

text \<open>
  C7 (amended). The expression that \<open>symbolic_analysis\<close> builds from a valid system
  \<open>(N, D)\<close> has the value \<open>N(s)/D(s)\<close> at every \<open>s\<close> where \<open>D(s)\<close> is not zero. Whatever valid
  ratio \<open>(N', D')\<close> the expression is re-expanded into, that is, every valid pair whose
  expression is the same, reproduces the original up to a common polynomial factor and
  leading zeros: the coefficient sequences of \<open>N' D\<close> and \<open>N D'\<close> are equal once their
  leading zeros are removed.
\<close>

theorem symbolic_analysis_cross_multiplication:
  "(\<not> all_zero d \<and> peval d s \<noteq> 0
      \<longrightarrow> fst (symbolic_analysis integ dif n d) s = Some (peval n s / peval d s))
   \<and> (\<not> all_zero d \<and> \<not> all_zero d'
        \<and> fst (symbolic_analysis integ dif n' d') = fst (symbolic_analysis integ dif n d)
      \<longrightarrow> dropWhile (\<lambda>c. c = 0) (polymul n' d) = dropWhile (\<lambda>c. c = 0) (polymul n d'))"
  by (auto simp add: symbolic_analysis_fst rat_value_regular same_value_cross_product)

theorem symbolic_analysis_cross_multiplication_witness:
  "fst (symbolic_analysis Value Value [1, 1] [1, 2, 1]) 1 = Some (1 / 2)
   \<and> dropWhile (\<lambda>c. c = 0) (polymul [1] [1, 2, 1])
       = dropWhile (\<lambda>c. c = 0) (polymul [1, 1] [1, 1::real])"
proof -
  have valid: "\<not> all_zero [1, 2, 1::real]" "\<not> all_zero [1, 1::real]"
    "peval [1, 2, 1] (1::real) \<noteq> 0"
    by (simp_all add: all_zero_def peval_def)
  have same: "fst (symbolic_analysis Value Value [1] [1, 1])
      = fst (symbolic_analysis Value Value [1, 1] [1, 2, 1])"
    by (simp add: symbolic_analysis_fst rat_value_cancel_factor)
  have "peval [1, 1] 1 / peval [1, 2, 1] (1::real) = 1 / 2"
    by (simp add: peval_def)
  then show ?thesis
    using symbolic_analysis_cross_multiplication
      [of "[1, 2, 1]" 1 Value Value "[1, 1]" "[1, 1]" "[1]"] valid same
    by simp
qed

text \<open>
  C10 (the two routes disagree). For the system with numerator \<open>[1]\<close> and denominator
  \<open>[1, 2, 1]\<close>, \<open>tf_to_sympy\<close> runs its index over the inputs of the system, not over the
  coefficients: each sum has the single term \<^verbatim>\<open>sys.num[0][0] * s**0\<close>, a whole coefficient
  array, and the quotient is the array \<open>[1, 1/2, 1]\<close> at every \<open>s\<close>. The first component of
  \<open>symbolic_analysis\<close> on the same coefficients is \<open>1/(s\<^sup>2 + 2s + 1)\<close>, which is \<open>1/4\<close> at
  \<open>s = 1\<close>. With numerator \<open>[1, 1]\<close> the two arrays have lengths 2 and 3 and the quotient
  raises \<^verbatim>\<open>ValueError\<close>.
\<close>

theorem tf_to_sympy_default_system:
  "TransferFunction [1] [1, 2, 1] = Inr \<lparr>num = [[[1]]], den = [[[1, 2, 1::real]]]\<rparr>
   \<and> map_sum id (\<lambda>obj. obj_at obj s) (tf_to_sympy \<lparr>num = [[[1]]], den = [[[1, 2, 1]]]\<rparr>)
       = Inr (ArrayV [Some 1, Some (1 / 2), Some 1])
   \<and> fst (symbolic_analysis integ dif [1] [1, 2, 1]) 1 = Some (1 / 4)
   \<and> tf_to_sympy \<lparr>num = [[[1, 1]]], den = [[[1, 2, 1]]]\<rparr> = Inl ValueError"
proof -
  have e: "rat_value [c] [d] s = (if d = 0 then None else Some (c / d))" for c d
    by (subst rat_value.simps) (simp add: all_zero_def peval_def)
  show ?thesis
    by (simp add: TransferFunction_def all_zero_def truncatecoeff_def tf_to_sympy_def py_sum_def
      array_times_def broadcast2_def simplify_def e_const_def e_pow_def polyadd_def e
      symbolic_analysis_fst rat_value_regular peval_def)
qed

end
